theory Spec2Isabelle
  imports Main "HOL-Library.Word"
begin

section \<open>Machine types\<close>

text \<open>
  \<^verbatim>\<open>common.Hash\<close> is a 32-byte array; the zero value \<^verbatim>\<open>common.Hash{}\<close> is the word 0.
  \<^verbatim>\<open>uint64\<close> arithmetic wraps around, as word arithmetic does. The bit index of
  \<^verbatim>\<open>GetBloomBits\<close> is a \<^verbatim>\<open>uint\<close>, taken at 64 bits; it is only passed on.
\<close>

type_synonym hash = "256 word"
type_synonym u64 = "64 word"
type_synonym byte = "8 word"

section \<open>The in-memory key-value store (etruedb/memorydb)\<close>

text \<open>
  A Go byte slice is either nil or a (possibly empty) sequence of bytes: \<open>None\<close> is the nil
  slice. A map key is \<^verbatim>\<open>string(key)\<close>, the bytes of the key (nil and empty keys coincide).
\<close>

type_synonym slice = "byte list option"

datatype memorydb_error = errMemorydbClosed | errMemorydbNotFound

text \<open>
  \<^verbatim>\<open>common.CopyBytes\<close> of the imported go-ethereum library: nil for a nil slice, otherwise a
  fresh slice with the same contents.
\<close>

definition CopyBytes :: "slice \<Rightarrow> slice" where
  "CopyBytes b = (case b of None \<Rightarrow> None | Some xs \<Rightarrow> Some xs)"

text \<open>
  \<^verbatim>\<open>MemoryDatabase\<close>: the field \<open>db\<close> is the Go map, \<open>None\<close> once it has been set to nil by
  \<^verbatim>\<open>Close\<close>. The lock is not modelled: every operation runs under it from start to end.
\<close>

record MemoryDatabase =
  db :: "(byte list \<rightharpoonup> slice) option"

definition New :: MemoryDatabase where
  "New = \<lparr>db = Some Map.empty\<rparr>"

definition Close :: "MemoryDatabase \<Rightarrow> MemoryDatabase \<times> memorydb_error option" where
  "Close d = (d\<lparr>db := None\<rparr>, None)"

definition Has :: "MemoryDatabase \<Rightarrow> byte list \<Rightarrow> bool \<times> memorydb_error option" where
  "Has d key =
     (case db d of
        None \<Rightarrow> (False, Some errMemorydbClosed)
      | Some m \<Rightarrow> (m key \<noteq> None, None))"

definition Get :: "MemoryDatabase \<Rightarrow> byte list \<Rightarrow> slice \<times> memorydb_error option" where
  "Get d key =
     (case db d of
        None \<Rightarrow> (None, Some errMemorydbClosed)
      | Some m \<Rightarrow>
          (case m key of
             Some entry \<Rightarrow> (CopyBytes entry, None)
           | None \<Rightarrow> (None, Some errMemorydbNotFound)))"

definition Put :: "MemoryDatabase \<Rightarrow> byte list \<Rightarrow> slice \<Rightarrow> MemoryDatabase \<times> memorydb_error option" where
  "Put d key val =
     (case db d of
        None \<Rightarrow> (d, Some errMemorydbClosed)
      | Some m \<Rightarrow> (d\<lparr>db := Some (m(key \<mapsto> CopyBytes val))\<rparr>, None))"

definition Delete :: "MemoryDatabase \<Rightarrow> byte list \<Rightarrow> MemoryDatabase \<times> memorydb_error option" where
  "Delete d key =
     (case db d of
        None \<Rightarrow> (d, Some errMemorydbClosed)
      | Some m \<Rightarrow> (d\<lparr>db := Some (m(key := None))\<rparr>, None))"

section \<open>Chain artifacts\<close>

text \<open>
  The \<^verbatim>\<open>types\<close> package is not part of the sources. An artifact carries what the retrieval
  code reads from it: \<open>hdr_hash\<close> is \<^verbatim>\<open>header.Hash()\<close>, \<open>hdr_number\<close> is
  \<^verbatim>\<open>header.Number.Uint64()\<close>, \<open>tx_hash\<close> is \<^verbatim>\<open>tx.Hash()\<close>; the remaining content is opaque.
\<close>

record header =
  hdr_hash :: hash
  hdr_number :: u64
  hdr_extra :: nat

record transaction =
  tx_hash :: hash
  tx_payload :: nat

record body =
  Transactions :: "transaction list"
  Signs :: "nat list"
  Infos :: "nat list"

record block =
  blk_header :: header
  blk_transactions :: "transaction list"
  blk_signs :: "nat list"
  blk_infos :: "nat list"

type_synonym log_entry = nat

record receipt =
  TxHash :: hash
  Logs :: "log_entry list"
  rc_core :: nat

type_synonym chain_config = nat

text \<open>\<^verbatim>\<open>types.NewBlockWithHeader(header).WithBody(txs, signs, infos)\<close>.\<close>

definition assemble_block :: "header \<Rightarrow> body \<Rightarrow> block" where
  "assemble_block h b =
     \<lparr>blk_header = h, blk_transactions = Transactions b, blk_signs = Signs b, blk_infos = Infos b\<rparr>"

section \<open>The Local Store\<close>

text \<open>
  The \<^verbatim>\<open>rawdb\<close> accessors are not part of the sources; the store is the table each accessor
  reads, keyed as the calls key it.
\<close>

record database =
  canonical_tab :: "u64 \<Rightarrow> hash"
  header_tab :: "hash \<times> u64 \<rightharpoonup> header"
  body_tab :: "hash \<times> u64 \<rightharpoonup> byte list"
  receipt_tab :: "hash \<times> u64 \<rightharpoonup> receipt list"
  bloombits_tab :: "u64 \<times> u64 \<times> hash \<rightharpoonup> byte list"
  config_tab :: "hash \<rightharpoonup> chain_config"
  bloomtrie_root_tab :: "u64 \<times> hash \<Rightarrow> hash"

text \<open>
  Modelled from the spec: \<^verbatim>\<open>rawdb.ReadCanonicalHash\<close>, the canonical hash mapping height to
  hash; the zero hash when none is recorded.
\<close>

definition ReadCanonicalHash :: "database \<Rightarrow> u64 \<Rightarrow> hash" where
  "ReadCanonicalHash d number = canonical_tab d number"

text \<open>
  Modelled from the spec: \<^verbatim>\<open>rawdb.ReadHeader\<close>, the header keyed by (hash, height); nil when
  absent.
\<close>

definition ReadHeader :: "database \<Rightarrow> hash \<Rightarrow> u64 \<Rightarrow> header option" where
  "ReadHeader d h number = header_tab d (h, number)"

text \<open>
  Modelled from the spec: \<^verbatim>\<open>rawdb.ReadBodyRLP\<close>, the raw encoded body keyed by
  (hash, height); nil when absent.
\<close>

definition ReadBodyRLP :: "database \<Rightarrow> hash \<Rightarrow> u64 \<Rightarrow> byte list option" where
  "ReadBodyRLP d h number = body_tab d (h, number)"

text \<open>
  Modelled from the spec: \<^verbatim>\<open>rawdb.ReadRawReceipts\<close>, the local lookup of the receipt set
  keyed by (hash, height); nil when absent. A set written by \<^verbatim>\<open>rawdb.WriteReceipts\<close> is read
  back as it was written.
\<close>

definition ReadRawReceipts :: "database \<Rightarrow> hash \<Rightarrow> u64 \<Rightarrow> receipt list option" where
  "ReadRawReceipts d h number = receipt_tab d (h, number)"

text \<open>
  Modelled from the spec: \<^verbatim>\<open>rawdb.WriteReceipts\<close>, persisting the receipt set to the Local
  Store keyed by (hash, height).
\<close>

definition WriteReceipts :: "database \<Rightarrow> hash \<Rightarrow> u64 \<Rightarrow> receipt list \<Rightarrow> database" where
  "WriteReceipts d h number rs = d\<lparr>receipt_tab := (receipt_tab d)((h, number) \<mapsto> rs)\<rparr>"

text \<open>
  Modelled from the spec: \<^verbatim>\<open>rawdb.ReadChainConfig\<close>, the chain configuration found by the
  genesis identity; nil when absent.
\<close>

definition ReadChainConfig :: "database \<Rightarrow> hash \<Rightarrow> chain_config option" where
  "ReadChainConfig d genesis = config_tab d genesis"

text \<open>
  Modelled from the spec: \<^verbatim>\<open>rawdb.ReadBloomBits\<close>, the compressed bit-vector keyed by
  (bit index, section index, section head hash); \<open>None\<close> is the error return of a miss.
\<close>

definition ReadBloomBits :: "database \<Rightarrow> u64 \<Rightarrow> u64 \<Rightarrow> hash \<Rightarrow> byte list option" where
  "ReadBloomBits d bitIdx sectionIdx head = bloombits_tab d (bitIdx, sectionIdx, head)"

text \<open>
  Modelled from the spec: \<^verbatim>\<open>GetBloomTrieRoot\<close>, the Merkle root of the index trie at a
  section, read from the Local Store by (section, section head hash).
\<close>

definition GetBloomTrieRoot :: "database \<Rightarrow> u64 \<Rightarrow> hash \<Rightarrow> hash" where
  "GetBloomTrieRoot d num head = bloomtrie_root_tab d (num, head)"

section \<open>The retrieval backend\<close>

text \<open>
  Errors. \<^verbatim>\<open>ErrNoTrustedBloomTrie\<close> and \<^verbatim>\<open>ErrNoHeader\<close> are the package's own sentinel
  values; a failure of the Remote Channel, of the body decoder or of the derivation is the
  collaborator's own error, carried with its code.
\<close>

datatype odr_error =
  ErrNoTrustedBloomTrie
| ErrNoHeader
| RetrieveError nat
| DecodeError nat
| DeriveError nat

text \<open>A Go call either panics or returns.\<close>

datatype 'a outcome = Panic | Return 'a

record indexer_config =
  BloomSize :: u64
  BloomTrieSize :: u64

text \<open>
  The bloom-trie indexer: \<^verbatim>\<open>Sections()\<close> gives the trusted section count, the height of
  the last section's head and its hash; \<^verbatim>\<open>SectionHead(i)\<close> the head hash of section \<open>i\<close>.
\<close>

record chain_indexer =
  Sections :: "u64 \<times> u64 \<times> hash"
  SectionHead :: "u64 \<Rightarrow> hash"

datatype tx_status_code = TxStatusUnknown | TxStatusQueued | TxStatusPending | TxStatusIncluded

record tx_lookup =
  BlockHash :: hash
  BlockIndex :: u64
  Index :: u64

text \<open>\<open>Lookup\<close> is a pointer in the response: \<open>None\<close> is nil.\<close>

record tx_status =
  Status :: tx_status_code
  Lookup :: "tx_lookup option"

text \<open>The request kinds, with the fields the retrieval code sets.\<close>

datatype request =
  BlockRequest hash u64
| ReceiptsRequest hash u64 "header option" bool
| BloomRequest hash u64 u64 "u64 list" indexer_config
| TxStatusRequest "hash list"

text \<open>
  \<^verbatim>\<open>OdrBackend\<close>. \<^verbatim>\<open>FastRetrieve\<close> fills the result field of the request it is given or
  fails: one response function per request kind (\<open>Inl\<close> is the failure). The backend also
  carries the primitives of packages that are not part of the sources: the body decoder
  \<^verbatim>\<open>rlp.Decode\<close>, \<^verbatim>\<open>Receipts.DeriveFields\<close>, and the value of \<^verbatim>\<open>Hash()\<close> on a nil header
  (\<open>None\<close> when that call panics).
\<close>

record odr_backend =
  BlockResponse :: "request \<Rightarrow> nat + byte list"
  ReceiptsResponse :: "request \<Rightarrow> nat + receipt list"
  BloomResponse :: "request \<Rightarrow> nat + byte list list"
  TxStatusResponse :: "request \<Rightarrow> nat + tx_status list"
  BloomTrieIndexer :: "chain_indexer option"
  FastIndexerConfig :: indexer_config
  DecodeBody :: "byte list \<Rightarrow> nat + body"
  DeriveFields ::
    "chain_config option \<Rightarrow> hash \<Rightarrow> u64 \<Rightarrow> transaction list \<Rightarrow> receipt list \<Rightarrow> nat + receipt list"
  NilHeaderHash :: "hash option"

text \<open>
  The state a call runs in: the Local Store behind \<^verbatim>\<open>odr.Database()\<close>, and a record of the
  effects so far: the remote requests submitted, the number of derivations run, and the
  keys of the receipt sets written.
\<close>

record world =
  Database :: database
  requests :: "request list"
  derivations :: nat
  writes :: "(hash \<times> u64) list"

text \<open>
  Modelled from the spec: \<^verbatim>\<open>odr.FastRetrieve\<close>, the Remote Channel's submit, which fills the
  response fields of the request or fails, and does not touch the Local Store. The request is
  recorded in the state.
\<close>

definition FastRetrieve ::
  "(request \<Rightarrow> nat + 'a) \<Rightarrow> request \<Rightarrow> world \<Rightarrow> (odr_error + 'a) \<times> world" where
  "FastRetrieve respond r w =
     (case respond r of Inl c \<Rightarrow> Inl (RetrieveError c) | Inr a \<Rightarrow> Inr a,
      w\<lparr>requests := requests w @ [r]\<rparr>)"

definition header_Hash :: "odr_backend \<Rightarrow> header option \<Rightarrow> hash option" where
  "header_Hash odr h = (case h of None \<Rightarrow> NilHeaderHash odr | Some hdr \<Rightarrow> Some (hdr_hash hdr))"

section \<open>Header and canonical hash\<close>

definition GetHeaderByNumber ::
  "odr_backend \<Rightarrow> u64 \<Rightarrow> world \<Rightarrow> (header option \<times> odr_error option) outcome \<times> world" where
  "GetHeaderByNumber odr number w =
     (let d = Database w;
          h = ReadCanonicalHash d number
      in if h \<noteq> 0 then
           (case ReadHeader d h number of
              None \<Rightarrow> (Panic, w)
            | Some header \<Rightarrow> (Return (Some header, None), w))
         else (Return (None, None), w))"

definition GetCanonicalHash ::
  "odr_backend \<Rightarrow> u64 \<Rightarrow> world \<Rightarrow> (hash \<times> odr_error option) outcome \<times> world" where
  "GetCanonicalHash odr number w =
     (let h = ReadCanonicalHash (Database w) number
      in if h \<noteq> 0 then (Return (h, None), w)
         else
           (case GetHeaderByNumber odr number w of
              (Panic, w') \<Rightarrow> (Panic, w')
            | (Return (header, err), w') \<Rightarrow>
                (case header of
                   Some hdr \<Rightarrow> (Return (hdr_hash hdr, None), w')
                 | None \<Rightarrow> (Return (0, err), w'))))"

section \<open>Body and block\<close>

definition GetBodyRLP ::
  "odr_backend \<Rightarrow> hash \<Rightarrow> u64 \<Rightarrow> world \<Rightarrow> (odr_error + byte list) \<times> world" where
  "GetBodyRLP odr h number w =
     (case ReadBodyRLP (Database w) h number of
        Some data \<Rightarrow> (Inr data, w)
      | None \<Rightarrow> FastRetrieve (BlockResponse odr) (BlockRequest h number) w)"

definition GetBody ::
  "odr_backend \<Rightarrow> hash \<Rightarrow> u64 \<Rightarrow> world \<Rightarrow> (odr_error + body) \<times> world" where
  "GetBody odr h number w =
     (case GetBodyRLP odr h number w of
        (Inl err, w') \<Rightarrow> (Inl err, w')
      | (Inr data, w') \<Rightarrow>
          (case DecodeBody odr data of
             Inl c \<Rightarrow> (Inl (DecodeError c), w')
           | Inr b \<Rightarrow> (Inr b, w')))"

definition GetBlock ::
  "odr_backend \<Rightarrow> hash \<Rightarrow> u64 \<Rightarrow> world \<Rightarrow> (odr_error + block) \<times> world" where
  "GetBlock odr h number w =
     (case ReadHeader (Database w) h number of
        None \<Rightarrow> (Inl ErrNoHeader, w)
      | Some header \<Rightarrow>
          (case GetBody odr h number w of
             (Inl err, w') \<Rightarrow> (Inl err, w')
           | (Inr b, w') \<Rightarrow> (Inr (assemble_block header b), w')))"

section \<open>Receipts and logs\<close>

definition GetBlockReceipts ::
  "odr_backend \<Rightarrow> hash \<Rightarrow> u64 \<Rightarrow> world \<Rightarrow> (odr_error + receipt list) \<times> world" where
  "GetBlockReceipts odr h number w =
     (case (case ReadRawReceipts (Database w) h number of
              Some rs \<Rightarrow> (Inr rs, w)
            | None \<Rightarrow>
                FastRetrieve (ReceiptsResponse odr) (ReceiptsRequest h number None False) w) of
        (Inl err, w1) \<Rightarrow> (Inl err, w1)
      | (Inr receipts, w1) \<Rightarrow>
          if 0 < length receipts \<and> TxHash (receipts ! 0) = 0 then
            (case GetBlock odr h number w1 of
               (Inl err, w2) \<Rightarrow> (Inl err, w2)
             | (Inr blk, w2) \<Rightarrow>
                 (let genesis = ReadCanonicalHash (Database w2) 0;
                      config = ReadChainConfig (Database w2) genesis;
                      w3 = w2\<lparr>derivations := derivations w2 + 1\<rparr>
                  in case DeriveFields odr config (hdr_hash (blk_header blk))
                            (hdr_number (blk_header blk)) (blk_transactions blk) receipts of
                       Inl c \<Rightarrow> (Inl (DeriveError c), w3)
                     | Inr derived \<Rightarrow>
                         (Inr derived,
                          w3\<lparr>Database := WriteReceipts (Database w3) h number derived,
                             writes := writes w3 @ [(h, number)]\<rparr>)))
          else (Inr receipts, w1))"

definition GetBlockLogs ::
  "odr_backend \<Rightarrow> hash \<Rightarrow> u64 \<Rightarrow> world \<Rightarrow> (odr_error + log_entry list list) \<times> world" where
  "GetBlockLogs odr h number w =
     (case GetBlockReceipts odr h number w of
        (Inl err, w') \<Rightarrow> (Inl err, w')
      | (Inr receipts, w') \<Rightarrow> (Inr (map Logs receipts), w'))"

definition GetUntrustedBlockLogs ::
  "odr_backend \<Rightarrow> header \<Rightarrow> world \<Rightarrow> (odr_error + log_entry list list) \<times> world" where
  "GetUntrustedBlockLogs odr header w =
     (let h = hdr_hash header; number = hdr_number header
      in case (case ReadRawReceipts (Database w) h number of
                 Some rs \<Rightarrow> (Inr rs, w)
               | None \<Rightarrow>
                   FastRetrieve (ReceiptsResponse odr)
                     (ReceiptsRequest h number (Some header) True) w) of
           (Inl err, w') \<Rightarrow> (Inl err, w')
         | (Inr receipts, w') \<Rightarrow> (Inr (map Logs receipts), w'))"

section \<open>Bloom-index bits\<close>

text \<open>The variables of the trust-boundary loop of \<^verbatim>\<open>GetBloomBits\<close>.\<close>

record boundary =
  bloomTrieCount :: u64
  sectionHeadNum :: u64
  sectionHead :: hash
  canonicalHash :: hash

definition reconcile_cond :: "boundary \<Rightarrow> bool" where
  "reconcile_cond s \<longleftrightarrow>
     0 < bloomTrieCount s \<and> canonicalHash s \<noteq> sectionHead s \<and> canonicalHash s \<noteq> 0"

definition reconcile_body ::
  "database \<Rightarrow> chain_indexer \<Rightarrow> indexer_config \<Rightarrow> boundary \<Rightarrow> boundary" where
  "reconcile_body d ix cfg s =
     (let c = bloomTrieCount s - 1
      in if 0 < c then
           (let n = c * BloomTrieSize cfg - 1
            in \<lparr>bloomTrieCount = c, sectionHeadNum = n, sectionHead = SectionHead ix (c - 1),
                canonicalHash = ReadCanonicalHash d n\<rparr>)
         else s\<lparr>bloomTrieCount := c\<rparr>)"

function reconcile ::
  "database \<Rightarrow> chain_indexer \<Rightarrow> indexer_config \<Rightarrow> boundary \<Rightarrow> boundary" where
  "reconcile d ix cfg s =
     (if reconcile_cond s then reconcile d ix cfg (reconcile_body d ix cfg s) else s)"
  by pat_completeness auto
termination
proof (relation "measure (\<lambda>(d, ix, cfg, s). unat (bloomTrieCount s))")
  show "wf (measure (\<lambda>(d, ix, cfg, s). unat (bloomTrieCount s)))"
    by simp
next
  fix d :: database and ix :: chain_indexer and cfg :: indexer_config and s :: boundary
  assume "reconcile_cond s"
  then have "bloomTrieCount s \<noteq> 0"
    by (auto simp: reconcile_cond_def)
  then have "unat (bloomTrieCount s - 1) < unat (bloomTrieCount s)"
    by (rule measure_unat)
  then show "((d, ix, cfg, reconcile_body d ix cfg s), (d, ix, cfg, s))
      \<in> measure (\<lambda>(d, ix, cfg, s). unat (bloomTrieCount s))"
    by (simp add: reconcile_body_def Let_def)
qed

text \<open>Lines 180 to 196: the trusted section count and head after reconciliation.\<close>

definition trusted_boundary :: "odr_backend \<Rightarrow> database \<Rightarrow> boundary" where
  "trusted_boundary odr d =
     (case BloomTrieIndexer odr of
        None \<Rightarrow> \<lparr>bloomTrieCount = 0, sectionHeadNum = 0, sectionHead = 0, canonicalHash = 0\<rparr>
      | Some ix \<Rightarrow>
          (case Sections ix of
             (c, n, h) \<Rightarrow>
               reconcile d ix (FastIndexerConfig odr)
                 \<lparr>bloomTrieCount = c, sectionHeadNum = n, sectionHead = h,
                  canonicalHash = ReadCanonicalHash d n\<rparr>))"

text \<open>Lines 199 to 203: the local lookup of one section.\<close>

definition local_bloom_bits ::
  "database \<Rightarrow> indexer_config \<Rightarrow> u64 \<Rightarrow> u64 \<Rightarrow> byte list option" where
  "local_bloom_bits d cfg bitIdx sectionIdx =
     ReadBloomBits d bitIdx sectionIdx
       (ReadCanonicalHash d ((sectionIdx + 1) * BloomSize cfg - 1))"

text \<open>
  The loop over \<^verbatim>\<open>sectionIdxList\<close>, from position \<open>i\<close>, on the result slots (\<open>None\<close> is a
  slot not yet filled), \<^verbatim>\<open>reqList\<close> and \<^verbatim>\<open>reqIdx\<close>.
\<close>

fun scan_sections ::
  "database \<Rightarrow> indexer_config \<Rightarrow> u64 \<Rightarrow> u64 \<Rightarrow> nat \<Rightarrow> u64 list \<Rightarrow>
   byte list option list \<times> u64 list \<times> nat list \<Rightarrow>
   odr_error + byte list option list \<times> u64 list \<times> nat list" where
  "scan_sections d cfg bitIdx cnt i [] acc = Inr acc"
| "scan_sections d cfg bitIdx cnt i (sectionIdx # rest) (result, reqList, reqIdx) =
     (case local_bloom_bits d cfg bitIdx sectionIdx of
        Some bloomBits \<Rightarrow>
          scan_sections d cfg bitIdx cnt (Suc i) rest (result[i := Some bloomBits], reqList, reqIdx)
      | None \<Rightarrow>
          if cnt \<le> sectionIdx then Inl ErrNoTrustedBloomTrie
          else scan_sections d cfg bitIdx cnt (Suc i) rest
                 (result, reqList @ [sectionIdx], reqIdx @ [i]))"

text \<open>
  The loop over \<^verbatim>\<open>reqIdx\<close>: the \<open>i\<close>-th returned vector goes to the slot \<^verbatim>\<open>reqIdx[i]\<close>;
  indexing past the end of \<^verbatim>\<open>r.BloomBits\<close> panics (\<open>None\<close>).
\<close>

fun scatter ::
  "byte list option list \<Rightarrow> nat list \<Rightarrow> byte list list \<Rightarrow> byte list option list option" where
  "scatter result [] bits = Some result"
| "scatter result (idx # idxs) [] = None"
| "scatter result (idx # idxs) (b # bits) = scatter (result[idx := Some b]) idxs bits"

text \<open>Line 219: the request for the sections in \<^verbatim>\<open>reqList\<close>.\<close>

definition bloom_request ::
  "odr_backend \<Rightarrow> database \<Rightarrow> boundary \<Rightarrow> u64 \<Rightarrow> u64 list \<Rightarrow> request" where
  "bloom_request odr d tb bitIdx reqList =
     BloomRequest (GetBloomTrieRoot d (bloomTrieCount tb - 1) (sectionHead tb))
       (bloomTrieCount tb - 1) bitIdx reqList (FastIndexerConfig odr)"

definition GetBloomBits ::
  "odr_backend \<Rightarrow> u64 \<Rightarrow> u64 list \<Rightarrow> world \<Rightarrow>
   (odr_error + byte list option list) outcome \<times> world" where
  "GetBloomBits odr bitIdx sectionIdxList w =
     (let d = Database w;
          tb = trusted_boundary odr d
      in case scan_sections d (FastIndexerConfig odr) bitIdx (bloomTrieCount tb) 0 sectionIdxList
                (replicate (length sectionIdxList) None, [], []) of
           Inl err \<Rightarrow> (Return (Inl err), w)
         | Inr (result, reqList, reqIdx) \<Rightarrow>
             if reqList = [] then (Return (Inr result), w)
             else
               (case FastRetrieve (BloomResponse odr) (bloom_request odr d tb bitIdx reqList) w of
                  (Inl err, w') \<Rightarrow> (Return (Inl err), w')
                | (Inr bits, w') \<Rightarrow>
                    (case scatter result reqIdx bits of
                       None \<Rightarrow> (Panic, w')
                     | Some merged \<Rightarrow> (Return (Inr merged), w'))))"

section \<open>Transaction locator\<close>

text \<open>
  The five results of \<^verbatim>\<open>GetTransaction\<close>: transaction (\<open>None\<close> is nil), block hash, block
  number, index, error (\<open>None\<close> is nil).
\<close>

type_synonym tx_result = "transaction option \<times> hash \<times> u64 \<times> u64 \<times> odr_error option"

definition no_transaction :: "odr_error option \<Rightarrow> tx_result" where
  "no_transaction err = (None, 0, 0, 0, err)"

definition GetTransaction ::
  "odr_backend \<Rightarrow> hash \<Rightarrow> world \<Rightarrow> tx_result outcome \<times> world" where
  "GetTransaction odr txHash w =
     (case FastRetrieve (TxStatusResponse odr) (TxStatusRequest [txHash]) w of
        (Inl err, w1) \<Rightarrow> (Return (no_transaction (Some err)), w1)
      | (Inr [], w1) \<Rightarrow> (Panic, w1)
      | (Inr (st # sts), w1) \<Rightarrow>
          if Status st \<noteq> TxStatusIncluded then (Return (no_transaction None), w1)
          else
            (case Lookup st of
               None \<Rightarrow> (Panic, w1)
             | Some pos \<Rightarrow>
                 (case GetHeaderByNumber odr (BlockIndex pos) w1 of
                    (Panic, w2) \<Rightarrow> (Panic, w2)
                  | (Return (header, Some err), w2) \<Rightarrow> (Return (no_transaction (Some err)), w2)
                  | (Return (header, None), w2) \<Rightarrow>
                      (case header_Hash odr header of
                         None \<Rightarrow> (Panic, w2)
                       | Some hh \<Rightarrow>
                           if hh \<noteq> BlockHash pos then (Return (no_transaction None), w2)
                           else
                             (case GetBody odr (BlockHash pos) (BlockIndex pos) w2 of
                                (Inl err, w3) \<Rightarrow> (Return (no_transaction (Some err)), w3)
                              | (Inr b, w3) \<Rightarrow>
                                  if length (Transactions b) \<le> unat (Index pos)
                                     \<or> tx_hash (Transactions b ! unat (Index pos)) \<noteq> txHash
                                  then (Return (no_transaction None), w3)
                                  else
                                    (Return (Some (Transactions b ! unat (Index pos)),
                                       BlockHash pos, BlockIndex pos, Index pos, None), w3))))))"

section \<open>Notions used in the statements\<close>

text \<open>
  The head of section \<open>c - 1\<close> is accepted by the loop condition of the trust-boundary loop:
  the canonical hash at the section's head height equals the indexer's section head, or no
  canonical hash is recorded there.
\<close>

definition section_head_accepted ::
  "database \<Rightarrow> chain_indexer \<Rightarrow> indexer_config \<Rightarrow> u64 \<Rightarrow> bool" where
  "section_head_accepted d ix cfg c \<longleftrightarrow>
     ReadCanonicalHash d (c * BloomTrieSize cfg - 1) = SectionHead ix (c - 1)
     \<or> ReadCanonicalHash d (c * BloomTrieSize cfg - 1) = 0"

text \<open>
  The loop variables agree with the indexer and the store at the current count (or the count
  is zero).
\<close>

definition aligned :: "database \<Rightarrow> chain_indexer \<Rightarrow> indexer_config \<Rightarrow> boundary \<Rightarrow> bool" where
  "aligned d ix cfg s \<longleftrightarrow>
     bloomTrieCount s = 0
     \<or> (sectionHead s = SectionHead ix (bloomTrieCount s - 1)
        \<and> canonicalHash s = ReadCanonicalHash d (bloomTrieCount s * BloomTrieSize cfg - 1))"

text \<open>The positions of the request list whose section is not found locally, in request order.\<close>

definition missed :: "database \<Rightarrow> indexer_config \<Rightarrow> u64 \<Rightarrow> u64 list \<Rightarrow> nat list" where
  "missed d cfg bitIdx secs =
     filter (\<lambda>i. local_bloom_bits d cfg bitIdx (secs ! i) = None) [0..<length secs]"

text \<open>
  The presence check of \<^verbatim>\<open>GetBlockReceipts\<close> passes a receipt set on without derivation: the
  set is empty or its first receipt carries a transaction hash.
\<close>

definition linked :: "receipt list \<Rightarrow> bool" where
  "linked rs \<longleftrightarrow> \<not> (0 < length rs \<and> TxHash (rs ! 0) = 0)"

section \<open>Concrete states\<close>

text \<open>An empty store, a backend whose remote channel always fails, and a fresh state.\<close>

definition empty_database :: database where
  "empty_database =
     \<lparr>canonical_tab = (\<lambda>n. 0), header_tab = Map.empty, body_tab = Map.empty,
      receipt_tab = Map.empty, bloombits_tab = Map.empty, config_tab = Map.empty,
      bloomtrie_root_tab = (\<lambda>k. 0)\<rparr>"

definition offline_backend :: odr_backend where
  "offline_backend =
     \<lparr>BlockResponse = (\<lambda>r. Inl 0), ReceiptsResponse = (\<lambda>r. Inl 0), BloomResponse = (\<lambda>r. Inl 0),
      TxStatusResponse = (\<lambda>r. Inl 0), BloomTrieIndexer = None,
      FastIndexerConfig = \<lparr>BloomSize = 4096, BloomTrieSize = 32768\<rparr>,
      DecodeBody = (\<lambda>data. Inl 0), DeriveFields = (\<lambda>cfg bh bn txs rs. Inl 0),
      NilHeaderHash = None\<rparr>"

definition world_of :: "database \<Rightarrow> world" where
  "world_of d = \<lparr>Database = d, requests = [], derivations = 0, writes = []\<rparr>"

text \<open>
  A store with canonical hash 7 at height 5 and its header, and canonical hash 9 at height 6
  with no header stored.
\<close>

definition header_7_5 :: header where
  "header_7_5 = \<lparr>hdr_hash = 7, hdr_number = 5, hdr_extra = 0\<rparr>"

definition chain_database :: database where
  "chain_database =
     empty_database
       \<lparr>canonical_tab := (\<lambda>n. if n = 5 then 7 else if n = 6 then 9 else 0),
        header_tab := [(7, 5) \<mapsto> header_7_5]\<rparr>"

text \<open>
  A reorganisation: the indexer trusts three sections of four blocks with heads 10, 20 and 30;
  the canonical chain agrees on the first head only.
\<close>

definition reorg_indexer :: chain_indexer where
  "reorg_indexer =
     \<lparr>Sections = (3, 11, 30), SectionHead = (\<lambda>i. if i = 0 then 10 else if i = 1 then 20 else 30)\<rparr>"

definition reorg_database :: database where
  "reorg_database =
     empty_database
       \<lparr>canonical_tab := (\<lambda>n. if n = 3 then 10 else if n = 7 then 21 else if n = 11 then 31 else 0)\<rparr>"

definition reorg_config :: indexer_config where
  "reorg_config = \<lparr>BloomSize = 2, BloomTrieSize = 4\<rparr>"

definition reorg_start :: boundary where
  "reorg_start = \<lparr>bloomTrieCount = 3, sectionHeadNum = 11, sectionHead = 30, canonicalHash = 31\<rparr>"

text \<open>
  Bit index 3: section 10 is stored locally, sections 11 and 12 are not; the indexer trusts
  twelve sections and the remote channel answers a bloom request with one vector.
\<close>

definition bloom_database :: database where
  "bloom_database = empty_database\<lparr>bloombits_tab := [(3, 10, 0) \<mapsto> [1, 2]]\<rparr>"

definition bloom_indexer :: chain_indexer where
  "bloom_indexer = \<lparr>Sections = (12, 393215, 77), SectionHead = (\<lambda>i. 77)\<rparr>"

definition bloom_backend :: odr_backend where
  "bloom_backend =
     offline_backend\<lparr>BloomResponse := (\<lambda>r. Inr [[9]]), BloomTrieIndexer := Some bloom_indexer\<rparr>"

text \<open>
  The block (7, 5) with its body of two transactions stored raw, a remote channel that serves
  two receipts without derived fields and a transaction status with a locator for every hash,
  and a derivation that links each receipt to its transaction.
\<close>

definition body_7_5 :: body where
  "body_7_5 =
     \<lparr>Transactions = [\<lparr>tx_hash = 41, tx_payload = 0\<rparr>, \<lparr>tx_hash = 42, tx_payload = 1\<rparr>],
      Signs = [], Infos = []\<rparr>"

definition full_database :: database where
  "full_database = chain_database\<lparr>body_tab := [(7, 5) \<mapsto> [1]]\<rparr>"

definition raw_receipts :: "receipt list" where
  "raw_receipts =
     [\<lparr>TxHash = 0, Logs = [100], rc_core = 1\<rparr>, \<lparr>TxHash = 0, Logs = [200, 201], rc_core = 1\<rparr>]"

definition serving_backend :: odr_backend where
  "serving_backend =
     offline_backend
       \<lparr>ReceiptsResponse := (\<lambda>r. Inr raw_receipts),
        TxStatusResponse :=
          (\<lambda>r. Inr [\<lparr>Status = TxStatusIncluded,
                      Lookup = Some \<lparr>BlockHash = (if r = TxStatusRequest [42] then 8 else 7),
                                     BlockIndex = 5,
                                     Index = (if r = TxStatusRequest [43] then 2 else 0)\<rparr>\<rparr>]),
        DecodeBody := (\<lambda>data. if data = [1] then Inr body_7_5 else Inl 0),
        DeriveFields :=
          (\<lambda>cfg bh bn txs rs.
             if length txs = length rs
             then Inr (map (\<lambda>(t, r). r\<lparr>TxHash := tx_hash t\<rparr>) (zip txs rs))
             else Inl 1)\<rparr>"

text \<open>The receipts once derived, and the state after they have been fetched and written.\<close>

definition derived_receipts :: "receipt list" where
  "derived_receipts =
     [\<lparr>TxHash = 41, Logs = [100], rc_core = 1\<rparr>, \<lparr>TxHash = 42, Logs = [200, 201], rc_core = 1\<rparr>]"

definition derived_world :: world where
  "derived_world =
     \<lparr>Database = WriteReceipts full_database 7 5 derived_receipts,
      requests = [ReceiptsRequest 7 5 None False], derivations = 1, writes = [(7, 5)]\<rparr>"

section \<open>Properties of the in-memory store\<close>

text \<open>
  C10, as the code has it: \<^verbatim>\<open>Get\<close> returns with a nil error exactly when the database is
  open and the key is present; it then returns the stored value (its copy), it fails with the
  not-found error when the key is absent, and with the closed-database error after
  \<^verbatim>\<open>Close\<close>. A nil value comes with a nil error exactly when the entry stored under the key is
  itself the nil slice.
\<close>

theorem Get_exactly:
  "(snd (Get d key) = None) = (\<exists>m. db d = Some m \<and> key \<in> dom m)
   \<and> (\<forall>m v. db d = Some m \<longrightarrow> m key = Some v \<longrightarrow> Get d key = (v, None))
   \<and> (\<forall>m. db d = Some m \<longrightarrow> m key = None \<longrightarrow> Get d key = (None, Some errMemorydbNotFound))
   \<and> Get (fst (Close d)) key = (None, Some errMemorydbClosed)
   \<and> (Get d key = (None, None)) = (\<exists>m. db d = Some m \<and> m key = Some None)"
  by (auto simp: Get_def Close_def CopyBytes_def split: option.splits)

theorem Get_exactly_witness:
  "Get (fst (Put New [1] (Some [2, 3]))) [1] = (Some [2, 3], None)
   \<and> Get (fst (Put New [1] (Some [2, 3]))) [4] = (None, Some errMemorydbNotFound)
   \<and> Get (fst (Close (fst (Put New [1] (Some [2, 3]))))) [1] = (None, Some errMemorydbClosed)"
  using Get_exactly [of "fst (Put New [1] (Some [2, 3]))" "[1]"]
    Get_exactly [of "fst (Put New [1] (Some [2, 3]))" "[4]"]
  by (simp add: Put_def New_def CopyBytes_def)

text \<open>
  C10, as stated, fails: after \<^verbatim>\<open>Put\<close> of a nil value under a key, \<^verbatim>\<open>Get\<close> of that key
  returns a nil value together with a nil error.
\<close>

theorem Get_nil_counterexample: "Get (fst (Put New [1] None)) [1] = (None, None)"
  by (simp add: Get_def Put_def New_def CopyBytes_def)

section \<open>Properties of header resolution\<close>

text \<open>
  C7: at every height where a canonical hash is recorded, \<^verbatim>\<open>GetHeaderByNumber\<close> returns the
  header stored under (that hash, height), with a nil error; when no header is stored under
  that key, the call panics.
\<close>

theorem GetHeaderByNumber_canonical:
  "ReadCanonicalHash (Database w) number \<noteq> 0 \<Longrightarrow>
   GetHeaderByNumber odr number w =
     (case ReadHeader (Database w) (ReadCanonicalHash (Database w) number) number of
        Some header \<Rightarrow> (Return (Some header, None), w)
      | None \<Rightarrow> (Panic, w))"
  by (simp add: GetHeaderByNumber_def Let_def split: option.splits)

theorem GetHeaderByNumber_canonical_witness:
  "GetHeaderByNumber offline_backend 5 (world_of chain_database)
     = (Return (Some header_7_5, None), world_of chain_database)
   \<and> GetHeaderByNumber offline_backend 6 (world_of chain_database)
     = (Panic, world_of chain_database)"
  using GetHeaderByNumber_canonical [of "world_of chain_database" 5 offline_backend]
    GetHeaderByNumber_canonical [of "world_of chain_database" 6 offline_backend]
  by (simp add: world_of_def chain_database_def empty_database_def ReadCanonicalHash_def
      ReadHeader_def)

text \<open>
  C8: \<^verbatim>\<open>GetHeaderByNumber\<close> leaves the state as it was, so it submits no remote request, and
  it returns a nil header with a nil error when no canonical hash is recorded. \<^verbatim>\<open>GetBlock\<close>
  returns \<^verbatim>\<open>ErrNoHeader\<close> without any request when the header is not stored, and the only
  request it ever submits is the body request for its own (hash, height).
\<close>

theorem header_resolution_local:
  "snd (GetHeaderByNumber odr number w) = w
   \<and> (ReadCanonicalHash (Database w) number = 0 \<longrightarrow>
        fst (GetHeaderByNumber odr number w) = Return (None, None))
   \<and> (ReadHeader (Database w) h number = None \<longrightarrow>
        GetBlock odr h number w = (Inl ErrNoHeader, w))
   \<and> (requests (snd (GetBlock odr h number w)) = requests w
        \<or> requests (snd (GetBlock odr h number w)) = requests w @ [BlockRequest h number])"
  by (auto simp: GetHeaderByNumber_def GetBlock_def GetBody_def GetBodyRLP_def FastRetrieve_def
      Let_def split: option.splits sum.splits prod.splits)

theorem header_resolution_local_witness:
  "GetHeaderByNumber offline_backend 4 (world_of chain_database)
     = (Return (None, None), world_of chain_database)
   \<and> GetBlock offline_backend 9 6 (world_of chain_database)
     = (Inl ErrNoHeader, world_of chain_database)
   \<and> requests (snd (GetBlock offline_backend 7 5 (world_of chain_database)))
     = [BlockRequest 7 5]"
  using header_resolution_local [of offline_backend 4 "world_of chain_database" 9]
    header_resolution_local [of offline_backend 6 "world_of chain_database" 9]
  by (simp add: world_of_def chain_database_def empty_database_def ReadCanonicalHash_def
      ReadHeader_def GetHeaderByNumber_def GetBlock_def GetBody_def GetBodyRLP_def
      ReadBodyRLP_def FastRetrieve_def offline_backend_def)

text \<open>
  C9: \<^verbatim>\<open>GetCanonicalHash\<close> returns the recorded canonical hash (the zero hash when none is
  recorded) with a nil error and leaves the state as it was. Its fallback finds no header:
  when no canonical hash is recorded \<^verbatim>\<open>GetHeaderByNumber\<close> returns a nil header, and
  whenever it returns a header a canonical hash is recorded.
\<close>

theorem GetCanonicalHash_direct:
  "GetCanonicalHash odr number w = (Return (ReadCanonicalHash (Database w) number, None), w)
   \<and> (ReadCanonicalHash (Database w) number = 0 \<longrightarrow>
        GetHeaderByNumber odr number w = (Return (None, None), w))
   \<and> (\<forall>hdr e w'. GetHeaderByNumber odr number w = (Return (Some hdr, e), w') \<longrightarrow>
        ReadCanonicalHash (Database w) number \<noteq> 0)"
  by (auto simp: GetCanonicalHash_def GetHeaderByNumber_def Let_def split: option.splits)

theorem GetCanonicalHash_direct_witness:
  "GetCanonicalHash offline_backend 4 (world_of chain_database)
     = (Return (0, None), world_of chain_database)
   \<and> GetCanonicalHash offline_backend 6 (world_of chain_database)
     = (Return (9, None), world_of chain_database)
   \<and> GetHeaderByNumber offline_backend 4 (world_of chain_database)
     = (Return (None, None), world_of chain_database)"
  using GetCanonicalHash_direct [of offline_backend 4 "world_of chain_database"]
    GetCanonicalHash_direct [of offline_backend 6 "world_of chain_database"]
  by (simp add: world_of_def chain_database_def empty_database_def ReadCanonicalHash_def)

section \<open>Properties of the trust-boundary loop\<close>

declare reconcile.simps [simp del]

lemma word_pred_less_self: "(c :: u64) \<noteq> 0 \<Longrightarrow> c - 1 < c"
  by (simp add: word_less_nat_alt measure_unat)

lemma reconcile_body_count: "bloomTrieCount (reconcile_body d ix cfg s) = bloomTrieCount s - 1"
  by (simp add: reconcile_body_def Let_def)

lemma reconcile_body_less:
  "reconcile_cond s \<Longrightarrow> bloomTrieCount (reconcile_body d ix cfg s) < bloomTrieCount s"
proof -
  assume "reconcile_cond s"
  then have "bloomTrieCount s \<noteq> 0"
    by (auto simp: reconcile_cond_def)
  then show ?thesis
    by (simp add: reconcile_body_count word_pred_less_self)
qed

lemma reconcile_body_aligned: "aligned d ix cfg (reconcile_body d ix cfg s)"
proof (cases "0 < bloomTrieCount s - 1")
  case True
  then show ?thesis
    by (simp add: aligned_def reconcile_body_def Let_def)
next
  case False
  then have "bloomTrieCount s - 1 = 0"
    by (simp add: word_gt_0)
  then show ?thesis
    by (simp add: aligned_def reconcile_body_def Let_def)
qed

lemma reconcile_le: "bloomTrieCount (reconcile d ix cfg s) \<le> bloomTrieCount s"
proof (induction d ix cfg s rule: reconcile.induct)
  case (1 d ix cfg s)
  show ?case
  proof (cases "reconcile_cond s")
    case True
    then have "bloomTrieCount (reconcile d ix cfg (reconcile_body d ix cfg s))
        \<le> bloomTrieCount (reconcile_body d ix cfg s)"
      by (rule "1.IH")
    also have "\<dots> < bloomTrieCount s"
      using True by (rule reconcile_body_less)
    finally show ?thesis
      using True by (subst reconcile.simps) simp
  next
    case False
    then show ?thesis
      by (subst reconcile.simps) simp
  qed
qed

lemma reconcile_less:
  assumes "reconcile_cond s"
  shows "bloomTrieCount (reconcile d ix cfg s) < bloomTrieCount s"
proof -
  have "reconcile d ix cfg s = reconcile d ix cfg (reconcile_body d ix cfg s)"
    using assms by (subst reconcile.simps) simp
  moreover have "bloomTrieCount (reconcile d ix cfg (reconcile_body d ix cfg s))
      \<le> bloomTrieCount (reconcile_body d ix cfg s)"
    by (rule reconcile_le)
  moreover have "bloomTrieCount (reconcile_body d ix cfg s) < bloomTrieCount s"
    using assms by (rule reconcile_body_less)
  ultimately show ?thesis
    by simp
qed

lemma reconcile_stops: "\<not> reconcile_cond (reconcile d ix cfg s)"
proof (induction d ix cfg s rule: reconcile.induct)
  case (1 d ix cfg s)
  then show ?case
    by (subst reconcile.simps) simp
qed

lemma reconcile_aligned: "aligned d ix cfg s \<Longrightarrow> aligned d ix cfg (reconcile d ix cfg s)"
proof (induction d ix cfg s rule: reconcile.induct)
  case (1 d ix cfg s)
  show ?case
  proof (cases "reconcile_cond s")
    case True
    then show ?thesis
      using "1.IH" [OF True reconcile_body_aligned] by (subst reconcile.simps) simp
  next
    case False
    then show ?thesis
      using "1.prems" by (subst reconcile.simps) simp
  qed
qed

lemma reconcile_accepted:
  assumes "reconcile_cond s"
  shows "bloomTrieCount (reconcile d ix cfg s) = 0
    \<or> section_head_accepted d ix cfg (bloomTrieCount (reconcile d ix cfg s))"
proof -
  have eq: "reconcile d ix cfg s = reconcile d ix cfg (reconcile_body d ix cfg s)"
    using assms by (subst reconcile.simps) simp
  have "aligned d ix cfg (reconcile d ix cfg (reconcile_body d ix cfg s))"
    by (rule reconcile_aligned [OF reconcile_body_aligned])
  then have al: "aligned d ix cfg (reconcile d ix cfg s)"
    by (simp add: eq)
  have "\<not> reconcile_cond (reconcile d ix cfg s)"
    by (rule reconcile_stops)
  with al show ?thesis
    by (auto simp: aligned_def reconcile_cond_def section_head_accepted_def word_neq_0_conv)
qed

lemma reconcile_unknown: "canonicalHash s = 0 \<Longrightarrow> reconcile d ix cfg s = s"
  by (subst reconcile.simps) (simp add: reconcile_cond_def)

text \<open>
  C1: the trust-boundary loop of \<^verbatim>\<open>GetBloomBits\<close> is a total function (its count decreases
  as a number below \<open>2 ^ 64\<close>). Started where its condition holds, that is with a nonzero
  count whose section head differs from a recorded (nonzero) canonical hash at the head
  height, every iteration strictly decreases the count, and the loop ends with a strictly
  smaller count that is zero or whose last section's head is accepted: equal to the canonical
  hash at its head height, or no canonical hash recorded there. A zero canonical hash at the
  head height makes the loop condition false: the count is not decremented.
\<close>

theorem reconcile_terminates_below:
  "(reconcile_cond s \<longrightarrow>
      bloomTrieCount (reconcile_body d ix cfg s) < bloomTrieCount s
      \<and> bloomTrieCount (reconcile d ix cfg s) < bloomTrieCount s
      \<and> (bloomTrieCount (reconcile d ix cfg s) = 0
         \<or> section_head_accepted d ix cfg (bloomTrieCount (reconcile d ix cfg s))))
   \<and> (canonicalHash s = 0 \<longrightarrow> \<not> reconcile_cond s \<and> reconcile d ix cfg s = s)"
  using reconcile_body_less reconcile_less reconcile_accepted reconcile_unknown
  by (simp add: reconcile_cond_def)

theorem reconcile_terminates_below_witness:
  "reconcile_cond reorg_start
   \<and> bloomTrieCount (reconcile reorg_database reorg_indexer reorg_config reorg_start) = 1
   \<and> section_head_accepted reorg_database reorg_indexer reorg_config 1
   \<and> reconcile reorg_database reorg_indexer reorg_config (reorg_start\<lparr>canonicalHash := 0\<rparr>)
       = reorg_start\<lparr>canonicalHash := 0\<rparr>"
  using reconcile_terminates_below [of reorg_start reorg_database reorg_indexer reorg_config]
    reconcile_terminates_below
      [of "reorg_start\<lparr>canonicalHash := 0\<rparr>" reorg_database reorg_indexer reorg_config]
  by (simp add: reconcile.simps reconcile_cond_def reconcile_body_def reorg_start_def
      reorg_database_def reorg_indexer_def reorg_config_def empty_database_def
      ReadCanonicalHash_def section_head_accepted_def Let_def)

section \<open>Properties of bloom-bit retrieval\<close>

lemma bloom_boundary:
  "trusted_boundary bloom_backend bloom_database
     = \<lparr>bloomTrieCount = 12, sectionHeadNum = 393215, sectionHead = 77, canonicalHash = 0\<rparr>"
  by (simp add: trusted_boundary_def bloom_backend_def offline_backend_def bloom_indexer_def
      bloom_database_def empty_database_def ReadCanonicalHash_def reconcile.simps
      reconcile_cond_def)

lemma bloom_local:
  "local_bloom_bits bloom_database (FastIndexerConfig bloom_backend) 3 10 = Some [1, 2]"
  "local_bloom_bits bloom_database (FastIndexerConfig bloom_backend) 3 11 = None"
  "local_bloom_bits bloom_database (FastIndexerConfig bloom_backend) 3 12 = None"
  by (simp_all add: local_bloom_bits_def bloom_backend_def offline_backend_def
      bloom_database_def empty_database_def ReadCanonicalHash_def ReadBloomBits_def)

lemma scan_sections_untrusted:
  "\<exists>s\<in>set ss. local_bloom_bits d cfg b s = None \<and> cnt \<le> s \<Longrightarrow>
   scan_sections d cfg b cnt i ss acc = Inl ErrNoTrustedBloomTrie"
proof (induction ss arbitrary: i acc)
  case Nil
  then show ?case by simp
next
  case (Cons x xs)
  obtain res rl ri where acc: "acc = (res, rl, ri)"
    by (cases acc) auto
  show ?case
  proof (cases "local_bloom_bits d cfg b x")
    case None
    show ?thesis
    proof (cases "cnt \<le> x")
      case True
      with None show ?thesis by (simp add: acc)
    next
      case False
      with None Cons.prems have "\<exists>s\<in>set xs. local_bloom_bits d cfg b s = None \<and> cnt \<le> s"
        by auto
      then show ?thesis
        using None False by (simp add: acc Cons.IH)
    qed
  next
    case (Some v)
    with Cons.prems have "\<exists>s\<in>set xs. local_bloom_bits d cfg b s = None \<and> cnt \<le> s"
      by auto
    then show ?thesis
      using Some by (simp add: acc Cons.IH)
  qed
qed

text \<open>
  C3: when some requested section is missed locally and its index is at or beyond the
  reconciled trusted section count, \<^verbatim>\<open>GetBloomBits\<close> returns \<^verbatim>\<open>ErrNoTrustedBloomTrie\<close> and the
  state is as before the call, so no remote request has been submitted; that error is not a
  failure of the remote channel.
\<close>

theorem GetBloomBits_untrusted:
  "\<exists>s\<in>set sectionIdxList.
      local_bloom_bits (Database w) (FastIndexerConfig odr) bitIdx s = None
      \<and> bloomTrieCount (trusted_boundary odr (Database w)) \<le> s \<Longrightarrow>
   GetBloomBits odr bitIdx sectionIdxList w = (Return (Inl ErrNoTrustedBloomTrie), w)
   \<and> ErrNoTrustedBloomTrie \<noteq> RetrieveError c"
  by (simp add: GetBloomBits_def Let_def scan_sections_untrusted)

theorem GetBloomBits_untrusted_witness:
  "GetBloomBits bloom_backend 3 [10, 12] (world_of bloom_database)
     = (Return (Inl ErrNoTrustedBloomTrie), world_of bloom_database)"
proof -
  have "\<exists>s\<in>set [10, 12].
      local_bloom_bits (Database (world_of bloom_database)) (FastIndexerConfig bloom_backend) 3 s = None
      \<and> bloomTrieCount (trusted_boundary bloom_backend (Database (world_of bloom_database))) \<le> s"
    by (simp add: world_of_def bloom_boundary bloom_local)
  from GetBloomBits_untrusted [OF this] show ?thesis
    by simp
qed

lemma missed_Nil: "missed d cfg b [] = []"
  by (simp add: missed_def)

lemma missed_Cons:
  "missed d cfg b (x # xs) =
     (if local_bloom_bits d cfg b x = None then [0] else []) @ map Suc (missed d cfg b xs)"
proof -
  have "[0..<length (x # xs)] = 0 # map Suc [0..<length xs]"
    by (simp add: upt_conv_Cons map_Suc_upt del: upt_Suc)
  then show ?thesis
    by (simp add: missed_def filter_map comp_def)
qed

lemma scan_sections_result:
  "scan_sections d cfg b cnt i ss (res, rl, ri) = Inr (res', rl', ri') \<Longrightarrow>
   i + length ss \<le> length res \<Longrightarrow>
   length res' = length res
   \<and> ri' = ri @ map (\<lambda>j. i + j) (missed d cfg b ss)
   \<and> rl' = rl @ map (\<lambda>j. ss ! j) (missed d cfg b ss)
   \<and> (\<forall>j<length ss. \<forall>v. local_bloom_bits d cfg b (ss ! j) = Some v \<longrightarrow> res' ! (i + j) = Some v)
   \<and> (\<forall>j<length ss. local_bloom_bits d cfg b (ss ! j) = None \<longrightarrow> res' ! (i + j) = res ! (i + j))
   \<and> (\<forall>j<i. res' ! j = res ! j)"
proof (induction ss arbitrary: i res rl ri)
  case Nil
  then show ?case by (simp add: missed_Nil)
next
  case (Cons x xs)
  show ?case
  proof (cases "local_bloom_bits d cfg b x")
    case None
    with Cons.prems have sc:
      "scan_sections d cfg b cnt (Suc i) xs (res, rl @ [x], ri @ [i]) = Inr (res', rl', ri')"
      by (simp split: if_splits)
    have len: "Suc i + length xs \<le> length res"
      using Cons.prems by simp
    note ih = Cons.IH [OF sc len]
    have keep: "\<And>j. j < Suc i \<Longrightarrow> res' ! j = res ! j"
      using ih by blast
    have 1: "length res' = length res"
      using ih by blast
    have 2: "ri' = ri @ map (\<lambda>j. i + j) (missed d cfg b (x # xs))"
      using ih None by (simp add: missed_Cons comp_def)
    have 3: "rl' = rl @ map (\<lambda>j. (x # xs) ! j) (missed d cfg b (x # xs))"
      using ih None by (simp add: missed_Cons comp_def)
    have 4: "res' ! (i + j) = Some v"
      if "j < length (x # xs)" "local_bloom_bits d cfg b ((x # xs) ! j) = Some v" for j v
    proof (cases j)
      case 0
      with that None show ?thesis by simp
    next
      case (Suc k)
      with that ih show ?thesis by simp
    qed
    have 5: "res' ! (i + j) = res ! (i + j)"
      if "j < length (x # xs)" "local_bloom_bits d cfg b ((x # xs) ! j) = None" for j
    proof (cases j)
      case 0
      then show ?thesis using keep [of i] by simp
    next
      case (Suc k)
      with that ih show ?thesis by simp
    qed
    have 6: "res' ! j = res ! j" if "j < i" for j
      using that keep [of j] by simp
    from 1 2 3 4 5 6 show ?thesis
      by blast
  next
    case (Some v)
    with Cons.prems have sc:
      "scan_sections d cfg b cnt (Suc i) xs (res[i := Some v], rl, ri) = Inr (res', rl', ri')"
      by simp
    have len: "Suc i + length xs \<le> length (res[i := Some v])"
      using Cons.prems by simp
    note ih = Cons.IH [OF sc len]
    have i: "i < length res"
      using Cons.prems by simp
    have keep: "\<And>j. j < Suc i \<Longrightarrow> res' ! j = res[i := Some v] ! j"
      using ih by blast
    have 1: "length res' = length res"
      using ih by simp
    have 2: "ri' = ri @ map (\<lambda>j. i + j) (missed d cfg b (x # xs))"
      using ih Some by (simp add: missed_Cons comp_def)
    have 3: "rl' = rl @ map (\<lambda>j. (x # xs) ! j) (missed d cfg b (x # xs))"
      using ih Some by (simp add: missed_Cons comp_def)
    have 4: "res' ! (i + j) = Some u"
      if "j < length (x # xs)" "local_bloom_bits d cfg b ((x # xs) ! j) = Some u" for j u
    proof (cases j)
      case 0
      with that Some i keep [of i] show ?thesis by simp
    next
      case (Suc k)
      with that ih show ?thesis by simp
    qed
    have 5: "res' ! (i + j) = res ! (i + j)"
      if "j < length (x # xs)" "local_bloom_bits d cfg b ((x # xs) ! j) = None" for j
    proof (cases j)
      case 0
      with that Some show ?thesis by simp
    next
      case (Suc k)
      with that ih show ?thesis by simp
    qed
    have 6: "res' ! j = res ! j" if "j < i" for j
      using that keep [of j] by simp
    from 1 2 3 4 5 6 show ?thesis
      by blast
  qed
qed

lemma scatter_result:
  "scatter res idxs bits = Some res' \<Longrightarrow> distinct idxs \<Longrightarrow> \<forall>i\<in>set idxs. i < length res \<Longrightarrow>
   length res' = length res
   \<and> length idxs \<le> length bits
   \<and> (\<forall>k<length idxs. res' ! (idxs ! k) = Some (bits ! k))
   \<and> (\<forall>j. j \<notin> set idxs \<longrightarrow> res' ! j = res ! j)"
proof (induction res idxs bits rule: scatter.induct)
  case (1 result bits)
  then show ?case by simp
next
  case (2 result idx idxs)
  then show ?case by simp
next
  case (3 result idx idxs b bits)
  then have ih: "length res' = length result
     \<and> length idxs \<le> length bits
     \<and> (\<forall>k<length idxs. res' ! (idxs ! k) = Some (bits ! k))
     \<and> (\<forall>j. j \<notin> set idxs \<longrightarrow> res' ! j = result[idx := Some b] ! j)"
    by simp
  have "idx \<notin> set idxs" "idx < length result"
    using "3.prems" by simp_all
  then show ?case
    using ih by (auto simp: nth_Cons less_Suc_eq_0_disj nth_list_update split: nat.splits)
qed


lemma missed_bounds: "\<forall>i\<in>set (missed d cfg b secs). i < length secs"
  by (simp add: missed_def)

lemma distinct_missed: "distinct (missed d cfg b secs)"
  by (simp add: missed_def)

lemma missed_miss: "i \<in> set (missed d cfg b secs) \<Longrightarrow> local_bloom_bits d cfg b (secs ! i) = None"
  by (simp add: missed_def)

text \<open>
  C2: when \<^verbatim>\<open>GetBloomBits\<close> returns a result, the result has one slot per requested section,
  in request order. A section found locally is in its own slot. When no section is missed the
  state is as before the call (no remote request) and the result is the local one. Otherwise
  exactly one request is submitted, for the missed sections in request order, and the
  \<open>k\<close>-th vector of the response is in the slot whose position was queued as the \<open>k\<close>-th
  miss.
\<close>

theorem GetBloomBits_merge:
  assumes "GetBloomBits odr bitIdx secs w = (Return (Inr result), w')"
  shows "(let d = Database w;
              cfg = FastIndexerConfig odr;
              ms = missed d cfg bitIdx secs;
              rq = bloom_request odr d (trusted_boundary odr d) bitIdx (map ((!) secs) ms)
          in length result = length secs
             \<and> (\<forall>i<length secs. \<forall>v. local_bloom_bits d cfg bitIdx (secs ! i) = Some v \<longrightarrow>
                   result ! i = Some v)
             \<and> (ms = [] \<longrightarrow> w' = w)
             \<and> (ms \<noteq> [] \<longrightarrow>
                  (\<exists>bits. BloomResponse odr rq = Inr bits
                     \<and> w' = w\<lparr>requests := requests w @ [rq]\<rparr>
                     \<and> length ms \<le> length bits
                     \<and> (\<forall>k<length ms. result ! (ms ! k) = Some (bits ! k)))))"
proof -
  define d where "d = Database w"
  define cfg where "cfg = FastIndexerConfig odr"
  define tb where "tb = trusted_boundary odr d"
  define ms where "ms = missed d cfg bitIdx secs"
  define rq where "rq = bloom_request odr d tb bitIdx (map ((!) secs) ms)"
  define start :: "byte list option list" where "start = replicate (length secs) None"
  obtain res rl ri where sc:
    "scan_sections d cfg bitIdx (bloomTrieCount tb) 0 secs (start, [], []) = Inr (res, rl, ri)"
    using assms
    by (cases "scan_sections d cfg bitIdx (bloomTrieCount tb) 0 secs (start, [], [])")
      (auto simp: GetBloomBits_def Let_def d_def cfg_def tb_def start_def)
  have "0 + length secs \<le> length start"
    by (simp add: start_def)
  from scan_sections_result [OF sc this]
  have len: "length res = length secs"
    and ri: "ri = ms"
    and rl: "rl = map ((!) secs) ms"
    and hit: "\<And>j v. j < length secs \<Longrightarrow> local_bloom_bits d cfg bitIdx (secs ! j) = Some v \<Longrightarrow>
        res ! j = Some v"
    by (simp_all add: start_def ms_def)
  have body: "GetBloomBits odr bitIdx secs w =
      (if rl = [] then (Return (Inr res), w)
       else (case FastRetrieve (BloomResponse odr) (bloom_request odr d tb bitIdx rl) w of
               (Inl err, w') \<Rightarrow> (Return (Inl err), w')
             | (Inr bits, w') \<Rightarrow>
                 (case scatter res ri bits of
                    None \<Rightarrow> (Panic, w')
                  | Some merged \<Rightarrow> (Return (Inr merged), w'))))"
    using sc
    by (simp add: GetBloomBits_def Let_def d_def cfg_def tb_def start_def)
  have main: "length result = length secs
      \<and> (\<forall>i<length secs. \<forall>v. local_bloom_bits d cfg bitIdx (secs ! i) = Some v \<longrightarrow>
            result ! i = Some v)
      \<and> (ms = [] \<longrightarrow> w' = w)
      \<and> (ms \<noteq> [] \<longrightarrow>
           (\<exists>bits. BloomResponse odr rq = Inr bits
              \<and> w' = w\<lparr>requests := requests w @ [rq]\<rparr>
              \<and> length ms \<le> length bits
              \<and> (\<forall>k<length ms. result ! (ms ! k) = Some (bits ! k))))"
  proof (cases "ms = []")
    case True
    then have "result = res" "w' = w"
      using body assms rl by simp_all
    then show ?thesis
      using True len hit by simp
  next
    case False
    then have rlne: "rl \<noteq> []"
      by (simp add: rl)
    obtain bits where resp: "BloomResponse odr rq = Inr bits"
      and w': "w' = w\<lparr>requests := requests w @ [rq]\<rparr>"
      and scat: "scatter res ms bits = Some result"
      using body assms rlne
      by (auto simp: FastRetrieve_def rq_def rl ri split: sum.splits option.splits)
    have bnd: "\<forall>i\<in>set ms. i < length res"
      using missed_bounds [of d cfg bitIdx secs] by (simp add: ms_def len)
    have dist: "distinct ms"
      by (simp add: ms_def distinct_missed)
    note sr = scatter_result [OF scat dist bnd]
    have "result ! i = Some v"
      if "i < length secs" "local_bloom_bits d cfg bitIdx (secs ! i) = Some v" for i v
    proof -
      have "i \<notin> set ms"
        using that missed_miss [of i d cfg bitIdx secs] by (auto simp: ms_def)
      then have "result ! i = res ! i"
        using sr by blast
      then show ?thesis
        using that hit by simp
    qed
    then show ?thesis
      using False sr resp w' len by auto
  qed
  show ?thesis
    using main by (simp add: Let_def d_def cfg_def tb_def ms_def rq_def)
qed


theorem GetBloomBits_merge_witness:
  "GetBloomBits bloom_backend 3 [10, 11] (world_of bloom_database)
     = (Return (Inr [Some [1, 2], Some [9]]),
        world_of bloom_database
          \<lparr>requests := [BloomRequest 0 11 3 [11] (FastIndexerConfig bloom_backend)]\<rparr>)
   \<and> missed bloom_database (FastIndexerConfig bloom_backend) 3 [10, 11] = [1]"
proof -
  have run: "GetBloomBits bloom_backend 3 [10, 11] (world_of bloom_database)
     = (Return (Inr [Some [1, 2], Some [9]]),
        world_of bloom_database
          \<lparr>requests := [BloomRequest 0 11 3 [11] (FastIndexerConfig bloom_backend)]\<rparr>)"
    by (simp add: GetBloomBits_def Let_def world_of_def bloom_boundary bloom_local
        bloom_request_def FastRetrieve_def GetBloomTrieRoot_def)
      (simp add: bloom_backend_def bloom_database_def empty_database_def)
  have ms: "missed bloom_database (FastIndexerConfig bloom_backend) 3 [10, 11] = [1]"
    by (simp add: missed_def bloom_local upt_conv_Cons)
  show ?thesis
    using run ms GetBloomBits_merge [OF run] by simp
qed

section \<open>Properties of receipts and logs\<close>

lemma GetBody_Database: "Database (snd (GetBody odr h n w)) = Database w"
  by (simp add: GetBody_def GetBodyRLP_def FastRetrieve_def
      split: option.splits sum.splits prod.splits)

lemma GetBody_counters:
  "derivations (snd (GetBody odr h n w)) = derivations w"
  "writes (snd (GetBody odr h n w)) = writes w"
  by (simp_all add: GetBody_def GetBodyRLP_def FastRetrieve_def
      split: option.splits sum.splits prod.splits)

lemma GetBody_fst_cong:
  "Database w' = Database w \<Longrightarrow> fst (GetBody odr h n w') = fst (GetBody odr h n w)"
  by (simp add: GetBody_def GetBodyRLP_def FastRetrieve_def
      split: option.splits sum.splits prod.splits)

lemma GetBlock_Database: "Database (snd (GetBlock odr h n w)) = Database w"
  using GetBody_Database [of odr h n w]
  by (auto simp: GetBlock_def split: option.splits sum.splits prod.splits)

lemma GetBlock_counters:
  "derivations (snd (GetBlock odr h n w)) = derivations w"
  "writes (snd (GetBlock odr h n w)) = writes w"
  using GetBody_counters [of odr h n w]
  by (auto simp: GetBlock_def split: option.splits sum.splits prod.splits)

lemma GetBlockReceipts_linked_hit:
  "ReadRawReceipts (Database w) h n = Some rs \<Longrightarrow> linked rs \<Longrightarrow>
   GetBlockReceipts odr h n w = (Inr rs, w)"
  by (auto simp: GetBlockReceipts_def linked_def)

lemma GetBlockReceipts_linked_miss:
  "ReadRawReceipts (Database w) h n = None \<Longrightarrow>
   ReceiptsResponse odr (ReceiptsRequest h n None False) = Inr rs \<Longrightarrow> linked rs \<Longrightarrow>
   GetBlockReceipts odr h n w = (Inr rs, w\<lparr>requests := requests w @ [ReceiptsRequest h n None False]\<rparr>)"
  by (auto simp: GetBlockReceipts_def linked_def FastRetrieve_def)

lemma GetBlockReceipts_cases:
  assumes "GetBlockReceipts odr h n w = (Inr rs, w1)"
  shows "(ReadRawReceipts (Database w) h n = Some rs \<and> w1 = w)
    \<or> (ReadRawReceipts (Database w) h n = None
        \<and> ReceiptsResponse odr (ReceiptsRequest h n None False) = Inr rs
        \<and> w1 = w\<lparr>requests := requests w @ [ReceiptsRequest h n None False]\<rparr>)
    \<or> ReadRawReceipts (Database w1) h n = Some rs"
proof (cases "ReadRawReceipts (Database w) h n")
  case None
  obtain res w' where fr:
    "FastRetrieve (ReceiptsResponse odr) (ReceiptsRequest h n None False) w = (res, w')"
    by (cases "FastRetrieve (ReceiptsResponse odr) (ReceiptsRequest h n None False) w")
  show ?thesis
  proof (cases res)
    case (Inl e)
    with None fr assms show ?thesis
      by (auto simp: GetBlockReceipts_def)
  next
    case (Inr rs0)
    have w': "w' = w\<lparr>requests := requests w @ [ReceiptsRequest h n None False]\<rparr>"
      and resp: "ReceiptsResponse odr (ReceiptsRequest h n None False) = Inr rs0"
      using fr Inr by (auto simp: FastRetrieve_def split: sum.splits)
    show ?thesis
    proof (cases "linked rs0")
      case True
      with None fr Inr assms have "rs = rs0" "w1 = w'"
        by (auto simp: GetBlockReceipts_def linked_def)
      then show ?thesis
        using None resp w' by simp
    next
      case False
      obtain bres w2 where gb: "GetBlock odr h n w' = (bres, w2)"
        by (cases "GetBlock odr h n w'")
      show ?thesis
        using assms None fr Inr False gb
        by (auto simp: GetBlockReceipts_def linked_def Let_def ReadRawReceipts_def WriteReceipts_def
            split: sum.splits)
    qed
  qed
next
  case (Some rs0)
  show ?thesis
  proof (cases "linked rs0")
    case True
    with Some assms show ?thesis
      by (auto simp: GetBlockReceipts_def linked_def)
  next
    case False
    obtain bres w2 where gb: "GetBlock odr h n w = (bres, w2)"
      by (cases "GetBlock odr h n w")
    show ?thesis
      using assms Some False gb
      by (auto simp: GetBlockReceipts_def linked_def Let_def ReadRawReceipts_def WriteReceipts_def
          split: sum.splits)
  qed
qed

lemma GetBlockReceipts_second:
  assumes "GetBlockReceipts odr h number w = (Inr rs, w1)"
    and "rs = [] \<or> TxHash (rs ! 0) \<noteq> 0"
  shows "fst (GetBlockReceipts odr h number w1) = Inr rs
    \<and> Database (snd (GetBlockReceipts odr h number w1)) = Database w1
    \<and> derivations (snd (GetBlockReceipts odr h number w1)) = derivations w1
    \<and> writes (snd (GetBlockReceipts odr h number w1)) = writes w1"
proof -
  have l: "linked rs"
    using assms(2) by (auto simp: linked_def)
  from GetBlockReceipts_cases [OF assms(1)]
  consider (same) "w1 = w"
    | (remote) "ReadRawReceipts (Database w) h number = None"
        "ReceiptsResponse odr (ReceiptsRequest h number None False) = Inr rs"
        "w1 = w\<lparr>requests := requests w @ [ReceiptsRequest h number None False]\<rparr>"
    | (stored) "ReadRawReceipts (Database w1) h number = Some rs"
    by (elim disjE conjE) simp_all
  then show ?thesis
  proof cases
    case same
    then show ?thesis
      using assms(1) by simp
  next
    case remote
    have "ReadRawReceipts (Database w1) h number = None"
      using remote by simp
    from GetBlockReceipts_linked_miss [OF this remote(2) l] show ?thesis
      by simp
  next
    case stored
    from GetBlockReceipts_linked_hit [OF stored l] show ?thesis
      by simp
  qed
qed

lemma GetBlock_fst_cong:
  "Database w' = Database w \<Longrightarrow> fst (GetBlock odr h n w') = fst (GetBlock odr h n w)"
  using GetBody_fst_cong [of w' w odr h n]
  by (auto simp: GetBlock_def split: option.splits sum.splits prod.splits)

lemma GetBlockReceipts_failure:
  assumes "GetBlockReceipts odr h n w = (Inl e, w1)"
  shows "Database w1 = Database w \<and> writes w1 = writes w"
proof -
  define fetched where "fetched =
    (case ReadRawReceipts (Database w) h n of
       Some rs \<Rightarrow> (Inr rs, w)
     | None \<Rightarrow> FastRetrieve (ReceiptsResponse odr) (ReceiptsRequest h n None False) w)"
  obtain res w' where f: "fetched = (res, w')"
    by (cases fetched)
  have w': "Database w' = Database w \<and> writes w' = writes w"
    using f by (auto simp: fetched_def FastRetrieve_def split: option.splits)
  obtain bres w2 where gb: "GetBlock odr h n w' = (bres, w2)"
    by (cases "GetBlock odr h n w'")
  have w2: "Database w2 = Database w' \<and> writes w2 = writes w'"
    using GetBlock_Database [of odr h n w'] GetBlock_counters(2) [of odr h n w'] gb by simp
  show ?thesis
    using assms f gb w' w2
    by (auto simp: GetBlockReceipts_def fetched_def [symmetric] Let_def
        split: sum.splits if_splits)
qed

lemma GetBlockReceipts_fst_cong:
  assumes "Database w' = Database w"
  shows "fst (GetBlockReceipts odr h n w') = fst (GetBlockReceipts odr h n w)"
proof -
  define fetched where "fetched v =
    (case ReadRawReceipts (Database v) h n of
       Some rs \<Rightarrow> (Inr rs, v)
     | None \<Rightarrow> FastRetrieve (ReceiptsResponse odr) (ReceiptsRequest h n None False) v)" for v
  obtain res u where f: "fetched w = (res, u)"
    by (cases "fetched w")
  obtain res' u' where f': "fetched w' = (res', u')"
    by (cases "fetched w'")
  have same: "res' = res" "Database u' = Database w" "Database u = Database w"
    using f f' assms by (auto simp: fetched_def FastRetrieve_def split: option.splits)
  obtain bres w2 where gb: "GetBlock odr h n u = (bres, w2)"
    by (cases "GetBlock odr h n u")
  obtain bres' w2' where gb': "GetBlock odr h n u' = (bres', w2')"
    by (cases "GetBlock odr h n u'")
  have "Database u' = Database u"
    using same by simp
  from GetBlock_fst_cong [OF this, of odr h n] have b: "bres' = bres"
    using gb gb' by simp
  have d: "Database w2 = Database w" "Database w2' = Database w"
    using GetBlock_Database [of odr h n u] GetBlock_Database [of odr h n u'] gb gb' same by simp_all
  show ?thesis
    using f f' same gb gb' b d
    by (auto simp: GetBlockReceipts_def fetched_def [symmetric] Let_def
        split: sum.splits if_splits)
qed

lemma GetBlockReceipts_second_failure:
  assumes "GetBlockReceipts odr h number w = (Inl e, w1)"
  shows "fst (GetBlockReceipts odr h number w1) = Inl e
    \<and> Database (snd (GetBlockReceipts odr h number w1)) = Database w1
    \<and> writes (snd (GetBlockReceipts odr h number w1)) = writes w1"
proof -
  have "Database w1 = Database w"
    using GetBlockReceipts_failure [OF assms] by simp
  from GetBlockReceipts_fst_cong [OF this, of odr h number]
  have r: "fst (GetBlockReceipts odr h number w1) = Inl e"
    using assms by simp
  obtain w2 where "GetBlockReceipts odr h number w1 = (Inl e, w2)"
    using r by (cases "GetBlockReceipts odr h number w1") simp
  then show ?thesis
    using GetBlockReceipts_failure [of odr h number w1 e w2] by simp
qed

lemma serving_block:
  "Database v = full_database \<Longrightarrow>
   GetBlock serving_backend 7 5 v = (Inr (assemble_block header_7_5 body_7_5), v)"
  by (simp add: GetBlock_def GetBody_def GetBodyRLP_def ReadHeader_def ReadBodyRLP_def
      full_database_def chain_database_def empty_database_def serving_backend_def)

lemma serving_derive:
  "DeriveFields serving_backend cfg bh bn (Transactions body_7_5) raw_receipts
     = Inr derived_receipts"
  by (simp add: serving_backend_def body_7_5_def raw_receipts_def derived_receipts_def)

lemma serving_receipts_run:
  "GetBlockReceipts serving_backend 7 5 (world_of full_database)
     = (Inr derived_receipts, derived_world)"
proof -
  define v where "v = world_of full_database\<lparr>requests := [ReceiptsRequest 7 5 None False]\<rparr>"
  have miss: "ReadRawReceipts (Database (world_of full_database)) 7 5 = None"
    by (simp add: ReadRawReceipts_def world_of_def full_database_def chain_database_def
        empty_database_def)
  have fetch: "FastRetrieve (ReceiptsResponse serving_backend) (ReceiptsRequest 7 5 None False)
      (world_of full_database) = (Inr raw_receipts, v)"
    by (simp add: FastRetrieve_def serving_backend_def v_def world_of_def)
  have blk: "GetBlock serving_backend 7 5 v = (Inr (assemble_block header_7_5 body_7_5), v)"
    by (rule serving_block) (simp add: v_def world_of_def)
  have raw: "0 < length raw_receipts \<and> TxHash (raw_receipts ! 0) = 0"
    by (simp add: raw_receipts_def)
  have fin: "v\<lparr>derivations := derivations v + 1,
              Database := WriteReceipts (Database v) 7 5 derived_receipts,
              writes := writes v @ [(7, 5)]\<rparr> = derived_world"
    by (simp add: v_def world_of_def derived_world_def)
  show ?thesis
    using raw fin
    by (simp add: GetBlockReceipts_def miss fetch blk Let_def assemble_block_def serving_derive)
qed

text \<open>
  C5: receipt enrichment is idempotent. When a call of \<^verbatim>\<open>GetBlockReceipts\<close> has returned a
  receipt set that is derived (empty, or with the transaction hash of its first receipt set,
  which is what the presence check reads), a second call for the same (hash, height) in the
  state the first call left returns the same set, runs no derivation and writes nothing: the
  store, the derivation count and the list of writes are as the first call left them. When
  the first call has failed, the second fails with the same error and writes nothing.
  \<^verbatim>\<open>DeriveFields\<close> is not part of the sources: the statement asks of it only that the set it
  returns is derived in this sense.
\<close>

theorem GetBlockReceipts_twice:
  "(GetBlockReceipts odr h number w = (Inr rs, w1) \<and> (rs = [] \<or> TxHash (rs ! 0) \<noteq> 0) \<longrightarrow>
      fst (GetBlockReceipts odr h number w1) = Inr rs
      \<and> Database (snd (GetBlockReceipts odr h number w1)) = Database w1
      \<and> derivations (snd (GetBlockReceipts odr h number w1)) = derivations w1
      \<and> writes (snd (GetBlockReceipts odr h number w1)) = writes w1)
   \<and> (GetBlockReceipts odr h number w = (Inl e, w1) \<longrightarrow>
      fst (GetBlockReceipts odr h number w1) = Inl e
      \<and> Database (snd (GetBlockReceipts odr h number w1)) = Database w1
      \<and> writes (snd (GetBlockReceipts odr h number w1)) = writes w1)"
  using GetBlockReceipts_second GetBlockReceipts_second_failure by blast

theorem GetBlockReceipts_twice_witness:
  "GetBlockReceipts serving_backend 7 5 (world_of full_database) = (Inr derived_receipts, derived_world)
   \<and> fst (GetBlockReceipts serving_backend 7 5 derived_world) = Inr derived_receipts
   \<and> derivations (snd (GetBlockReceipts serving_backend 7 5 derived_world)) = 1
   \<and> writes (snd (GetBlockReceipts serving_backend 7 5 derived_world)) = [(7, 5)]
   \<and> ReadRawReceipts (Database derived_world) 7 5 = Some derived_receipts"
  using GetBlockReceipts_twice
    [of serving_backend 7 5 "world_of full_database" derived_receipts derived_world]
  by (simp add: serving_receipts_run)
    (simp add: derived_receipts_def derived_world_def ReadRawReceipts_def WriteReceipts_def)

text \<open>
  C6: \<^verbatim>\<open>GetUntrustedBlockLogs\<close> leaves the Local Store as it was, runs no derivation and
  writes no receipts; a local lookup of the block's receipts gives after the call what it gave
  before it (a miss stays a miss). The logs returned are the logs of the receipts as they were
  read locally or, on a local miss, as the remote channel returned them for the untrusted
  request.
\<close>

theorem GetUntrustedBlockLogs_frame:
  "Database (snd (GetUntrustedBlockLogs odr header w)) = Database w
   \<and> derivations (snd (GetUntrustedBlockLogs odr header w)) = derivations w
   \<and> writes (snd (GetUntrustedBlockLogs odr header w)) = writes w
   \<and> ReadRawReceipts (Database (snd (GetUntrustedBlockLogs odr header w)))
        (hdr_hash header) (hdr_number header)
      = ReadRawReceipts (Database w) (hdr_hash header) (hdr_number header)
   \<and> fst (GetUntrustedBlockLogs odr header w)
      = (case ReadRawReceipts (Database w) (hdr_hash header) (hdr_number header) of
           Some rs \<Rightarrow> Inr (map Logs rs)
         | None \<Rightarrow>
             (case ReceiptsResponse odr
                     (ReceiptsRequest (hdr_hash header) (hdr_number header) (Some header) True) of
                Inl c \<Rightarrow> Inl (RetrieveError c)
              | Inr rs \<Rightarrow> Inr (map Logs rs)))"
  by (simp add: GetUntrustedBlockLogs_def FastRetrieve_def Let_def
      split: option.splits sum.splits prod.splits)

theorem GetUntrustedBlockLogs_frame_witness:
  "fst (GetUntrustedBlockLogs serving_backend header_7_5 (world_of full_database))
     = Inr [[100], [200, 201]]
   \<and> ReadRawReceipts
        (Database (snd (GetUntrustedBlockLogs serving_backend header_7_5 (world_of full_database))))
        7 5 = None"
  using GetUntrustedBlockLogs_frame [of serving_backend header_7_5 "world_of full_database"]
  by (simp add: world_of_def full_database_def chain_database_def empty_database_def
      ReadRawReceipts_def header_7_5_def serving_backend_def offline_backend_def raw_receipts_def)

section \<open>Properties of the transaction locator\<close>



lemma serving_status:
  "TxStatusResponse serving_backend (TxStatusRequest [h])
     = Inr [\<lparr>Status = TxStatusIncluded,
              Lookup = Some \<lparr>BlockHash = (if h = 42 then 8 else 7), BlockIndex = 5,
                             Index = (if h = 43 then 2 else 0)\<rparr>\<rparr>]"
  by (simp add: serving_backend_def)





text \<open>
  Whenever \<^verbatim>\<open>GetTransaction\<close> returns a transaction, it hashes to the queried hash and the
  error is nil.
\<close>

lemma GetTransaction_sound:
  assumes "fst (GetTransaction odr txHash w) = Return (Some tx, bh, bn, i, e)"
  shows "tx_hash tx = txHash \<and> e = None"
proof -
  obtain res w1 where
    fr: "FastRetrieve (TxStatusResponse odr) (TxStatusRequest [txHash]) w = (res, w1)"
    by (cases "FastRetrieve (TxStatusResponse odr) (TxStatusRequest [txHash]) w")
  show ?thesis
    using assms fr
    by (auto simp: GetTransaction_def no_transaction_def
        split: sum.splits list.splits option.splits prod.splits outcome.splits if_splits)
qed

text \<open>A locator that passes every check: the transaction is returned with its position.\<close>

lemma GetTransaction_accepts:
  "fst (GetTransaction serving_backend 41 (world_of full_database))
       = Return (Some \<lparr>tx_hash = 41, tx_payload = 0\<rparr>, 7, 5, 0, None)"
  by (simp add: GetTransaction_def FastRetrieve_def serving_status GetHeaderByNumber_def Let_def world_of_def full_database_def chain_database_def
      empty_database_def ReadCanonicalHash_def ReadHeader_def GetBody_def GetBodyRLP_def ReadBodyRLP_def
        header_Hash_def header_7_5_def  )
    (simp add: serving_backend_def body_7_5_def)

end
